theory Spec2Isabelle
  imports Main "HOL-Library.Sublist" "HOL-Library.Multiset"
begin

section \<open>Data model of \<open>src/index.ts\<close>\<close>

text \<open>
  The value of an \<open>of\<close> field: \<^verbatim>\<open>string | string[]\<close>. The dependency entries of a
  module declaration are typed \<^verbatim>\<open>of: string\<close>, but the code passes them through
  \<open>toArray\<close> as well (and the README writes them as sequences), so the same type is used.
\<close>

datatype of_value = Scalar string | Sequence "string list"

text \<open>\<^verbatim>\<open>function toArray<T>(arr: T | T[]) { return Array.isArray(arr) ? arr : [arr]; }\<close>\<close>

fun toArray :: "of_value \<Rightarrow> string list" where
  "toArray (Sequence xs) = xs"
| "toArray (Scalar x) = [x]"

text \<open>\<^verbatim>\<open>type LoadModule = { name: string; of: string | string[] }\<close>\<close>

record LoadModule =
  lm_name :: string
  lm_of :: of_value

text \<open>An element of \<open>Deployment.modules\<close>: \<^verbatim>\<open>string | LoadModule\<close>.\<close>

datatype module_ref = Bare string | Override LoadModule

record Dependency =
  dep_name :: string
  dep_of :: of_value

text \<open>
  \<^verbatim>\<open>type ModuleConfig = { version; dependencies: {name, of}[]; name }\<close>. The code guards
  against a declaration without \<open>dependencies\<close> (\<^verbatim>\<open>!config.dependencies\<close>), so the field
  is optional here.
\<close>

record ModuleConfig =
  mc_version :: int
  mc_dependencies :: "Dependency list option"
  mc_name :: string

text \<open>
  \<^verbatim>\<open>type Deployment\<close>, as declared: \<open>type\<close>, \<open>name\<close>, \<open>of\<close> and \<open>modules\<close> are required,
  \<open>description\<close>, \<open>template\<close> and \<open>load\<close> are optional. Verification and execution read
  the entries of the manifest at this type.
\<close>

record Deployment =
  d_type :: string
  d_name :: string
  d_of :: of_value
  d_description :: "string option"
  d_modules :: "module_ref list"
  d_template :: "string option"
  d_load :: "string list option"


text \<open>
  \<^verbatim>\<open>type DeploymentConfig<T> = { version; templates?: Dictionary<T | Deployment>;
  deployment: (Deployment | T)[] }\<close>, generic in the type of an entry as in the source.
\<close>

record 'd DeploymentConfig =
  dc_version :: int
  dc_templates :: "(string \<rightharpoonup> 'd) option"
  dc_deployment :: "'d list"

text \<open>
  Every failure of the code is an exception: a failed \<open>assert\<close> (with the message given
  to it, \<open>None\<close> when the call gives none), or whatever an external collaborator
  (\<open>require\<close>, a runner's hook) throws.
\<close>

datatype error = AssertionError "string option" | Thrown string

section \<open>Template expansion: \<open>_loadConfig\<close>\<close>







section \<open>Aggregation and dependency verification: \<open>_verifyDependencies\<close>\<close>

text \<open>\<^verbatim>\<open>_moduleName(module) { return typeof module === 'string' ? module : module.name; }\<close>\<close>

fun moduleName :: "module_ref \<Rightarrow> string" where
  "moduleName (Bare n) = n"
| "moduleName (Override lm) = lm_name lm"

text \<open>
  \<open>_getLoadedCommand\<close>: a bare module name takes the entry's \<open>of\<close>, a \<open>{name, of}\<close>
  reference its own.
\<close>

fun getLoadedCommand :: "Deployment \<Rightarrow> module_ref \<Rightarrow> string list" where
  "getLoadedCommand deployment (Bare n) = toArray (d_of deployment)"
| "getLoadedCommand deployment (Override lm) = toArray (lm_of lm)"

text \<open>
  \<open>loadedCommands\<close> is a \<^verbatim>\<open>Map<string, Set<string>>\<close> on which the code only calls \<open>get\<close>,
  \<open>set\<close>, \<open>add\<close> and \<open>has\<close>: a map from module names to sets of commands. The body of the
  inner loop of pass one fetches the set of the module's name (a fresh empty one when there
  is none yet) and adds every contributed command to it.
\<close>

definition addLoaded ::
  "Deployment \<Rightarrow> module_ref \<Rightarrow> (string \<rightharpoonup> string set) \<Rightarrow> (string \<rightharpoonup> string set)" where
  "addLoaded deployment module loadedCommands =
     (let cached = (case loadedCommands (moduleName module) of None \<Rightarrow> {} | Some c \<Rightarrow> c)
      in loadedCommands(moduleName module \<mapsto> cached \<union> set (getLoadedCommand deployment module)))"

text \<open>Pass one: both loops, from the empty map.\<close>

definition aggregate :: "Deployment list \<Rightarrow> (string \<rightharpoonup> string set)" where
  "aggregate deployments =
     fold (\<lambda>deployment. fold (addLoaded deployment) (d_modules deployment)) deployments Map.empty"

text \<open>
  Pass two, innermost loop: every command of one dependency must be in the set aggregated
  for the dependency's name (\<^verbatim>\<open>cached && cached.has(dependentCommand)\<close>); the first one that
  is not fails the assert with the message of the source.
\<close>

fun checkCommands :: "string set option \<Rightarrow> string \<Rightarrow> string list \<Rightarrow> error + unit" where
  "checkCommands cached depName [] = Inr ()"
| "checkCommands cached depName (dependentCommand # rest) =
     (if (case cached of None \<Rightarrow> False | Some c \<Rightarrow> dependentCommand \<in> c)
      then checkCommands cached depName rest
      else Inl (AssertionError (Some
             (''Expected module '' @ depName @ '' command '' @ dependentCommand
                @ '' to be loaded.''))))"

text \<open>The loop over \<open>config.dependencies\<close>.\<close>

fun checkDependencies :: "(string \<rightharpoonup> string set) \<Rightarrow> Dependency list \<Rightarrow> error + unit" where
  "checkDependencies loadedCommands [] = Inr ()"
| "checkDependencies loadedCommands (dependency # rest) =
     (case checkCommands (loadedCommands (moduleName (Bare (dep_name dependency))))
             (dep_name dependency) (toArray (dep_of dependency)) of
        Inl e \<Rightarrow> Inl e
      | Inr u \<Rightarrow> checkDependencies loadedCommands rest)"

text \<open>
  The loop over the modules of one entry: the module's declaration must be in the
  declaration cache (\<^verbatim>\<open>assert(config)\<close>, no message); a declaration with no or empty
  \<open>dependencies\<close> is skipped.
\<close>

fun checkModules ::
  "(string \<rightharpoonup> ModuleConfig) \<Rightarrow> (string \<rightharpoonup> string set) \<Rightarrow> module_ref list \<Rightarrow> error + unit" where
  "checkModules configCache loadedCommands [] = Inr ()"
| "checkModules configCache loadedCommands (module # rest) =
     (case configCache (moduleName module) of
        None \<Rightarrow> Inl (AssertionError None)
      | Some config \<Rightarrow>
          (case mc_dependencies config of
             None \<Rightarrow> checkModules configCache loadedCommands rest
           | Some [] \<Rightarrow> checkModules configCache loadedCommands rest
           | Some deps \<Rightarrow>
               (case checkDependencies loadedCommands deps of
                  Inl e \<Rightarrow> Inl e
                | Inr u \<Rightarrow> checkModules configCache loadedCommands rest)))"

text \<open>The loop over the entries of the manifest.\<close>

fun checkDeployments ::
  "(string \<rightharpoonup> ModuleConfig) \<Rightarrow> (string \<rightharpoonup> string set) \<Rightarrow> Deployment list \<Rightarrow> error + unit" where
  "checkDeployments configCache loadedCommands [] = Inr ()"
| "checkDeployments configCache loadedCommands (deployment # rest) =
     (case checkModules configCache loadedCommands (d_modules deployment) of
        Inl e \<Rightarrow> Inl e
      | Inr u \<Rightarrow> checkDeployments configCache loadedCommands rest)"

section \<open>The executor: state, runners and \<open>run\<close>\<close>

text \<open>
  A runner (\<^verbatim>\<open>interface Runner<T, M>\<close>) is an external object. Its hooks act on a world
  \<open>'w\<close> outside the executor and either return (the new world) or throw (\<open>Inl\<close>). \<open>'m\<close> is
  the type of a loaded module artifact.
\<close>

record ('m, 'w) Runner =
  r_type :: string
  onLoad :: "'m \<Rightarrow> Deployment \<Rightarrow> 'w \<Rightarrow> string + 'w"
  r_run :: "'w \<Rightarrow> string + 'w"

text \<open>
  A call of a hook, as the history of a run records it: \<open>LoadHook root command d\<close> is a
  call of \<open>onLoad\<close> with the artifact loaded from the module root \<open>root\<close> and the
  (lower-cased) command \<open>command\<close>, and with the entry \<open>d\<close>; \<open>RunHook\<close> is a call of \<open>run\<close>,
  which takes no argument.
\<close>

datatype hook_call = LoadHook string string Deployment | RunHook

text \<open>
  The fields of the class (\<open>config\<close>, \<open>configCache\<close>, \<open>runnerCache\<close>, \<open>modulePathCache\<close>),
  then the world the hooks act on, and \<open>calls\<close>, a history variable in which every hook
  call is written down when it is made.
\<close>

record ('m, 'w) Executor =
  config :: "Deployment DeploymentConfig option"
  configCache :: "string \<rightharpoonup> ModuleConfig"
  runnerCache :: "string \<rightharpoonup> ('m, 'w) Runner"
  modulePathCache :: "string \<rightharpoonup> string"
  world :: 'w
  calls :: "hook_call list"

text \<open>\<^verbatim>\<open>addRunner(runner) { this.runnerCache.set(runner.type, runner); return this; }\<close>\<close>

definition addRunner :: "('m, 'w) Runner \<Rightarrow> ('m, 'w) Executor \<Rightarrow> ('m, 'w) Executor" where
  "addRunner runner s = s\<lparr>runnerCache := (runnerCache s)(r_type runner \<mapsto> runner)\<rparr>"

text \<open>
  \<open>_verifyDependencies\<close>: \<^verbatim>\<open>assert(this.config)\<close>, then \<^verbatim>\<open>assert(this.configCache.size, ...)\<close>,
  then the two passes. It changes nothing.
\<close>

definition verifyDependencies :: "('m, 'w) Executor \<Rightarrow> error + unit" where
  "verifyDependencies s =
     (case config s of
        None \<Rightarrow> Inl (AssertionError None)
      | Some cfg \<Rightarrow>
          if configCache s = Map.empty
          then Inl (AssertionError (Some ''Expected that config cache has already been loaded.''))
          else checkDeployments (configCache s) (aggregate (dc_deployment cfg)) (dc_deployment cfg))"

text \<open>
  \<open>String.prototype.toLowerCase\<close>, on the ASCII letters (a \<open>char\<close> is a byte; the commands
  of the examples are ASCII).
\<close>

definition lowerChar :: "char \<Rightarrow> char" where
  "lowerChar c =
     (case map_of (zip ''ABCDEFGHIJKLMNOPQRSTUVWXYZ'' ''abcdefghijklmnopqrstuvwxyz'') c of
        Some l \<Rightarrow> l
      | None \<Rightarrow> c)"

definition toLowerCase :: "string \<Rightarrow> string" where
  "toLowerCase str = map lowerChar str"

text \<open>
  The loader stands for \<^verbatim>\<open>require(path.join(modulePath, load.toLowerCase()))\<close>: it is given
  the module's root and the lower-cased command, and returns the artifact or throws.
\<close>

type_synonym ('m, 'w) loader = "string \<Rightarrow> string \<Rightarrow> 'w \<Rightarrow> string + ('m \<times> 'w)"

text \<open>
  The innermost loop of \<open>run\<close>, over the commands of one module reference. Each round
  looks the module's path up (\<^verbatim>\<open>assert(modulePath)\<close>: present and not the empty string),
  loads the artifact and awaits the load hook before the next round.
\<close>

fun loadEach ::
  "('m, 'w) loader \<Rightarrow> ('m, 'w) Runner \<Rightarrow> Deployment \<Rightarrow> module_ref \<Rightarrow> string list
     \<Rightarrow> ('m, 'w) Executor \<Rightarrow> (error + unit) \<times> ('m, 'w) Executor" where
  "loadEach req runner deployment module [] s = (Inr (), s)"
| "loadEach req runner deployment module (load # rest) s =
     (case modulePathCache s (moduleName module) of
        None \<Rightarrow> (Inl (AssertionError None), s)
      | Some modulePath \<Rightarrow>
          if modulePath = [] then (Inl (AssertionError None), s)
          else (case req modulePath (toLowerCase load) (world s) of
                  Inl x \<Rightarrow> (Inl (Thrown x), s)
                | Inr (artifact, w1) \<Rightarrow>
                    (let s1 = s\<lparr>world := w1, calls := calls s @ [LoadHook modulePath (toLowerCase load) deployment]\<rparr>
                     in case onLoad runner artifact deployment w1 of
                          Inl x \<Rightarrow> (Inl (Thrown x), s1)
                        | Inr w2 \<Rightarrow>
                            loadEach req runner deployment module rest (s1\<lparr>world := w2\<rparr>))))"

text \<open>
  The command list of one module reference as \<open>run\<close> computes it (it does not call
  \<open>_getLoadedCommand\<close>): \<^verbatim>\<open>let toLoad = toArray(deployment.of); if (typeof module !==
  'string') toLoad = toArray(module.of);\<close>
\<close>

fun toLoad :: "Deployment \<Rightarrow> module_ref \<Rightarrow> string list" where
  "toLoad deployment (Bare n) = toArray (d_of deployment)"
| "toLoad deployment (Override lm) = toArray (lm_of lm)"

text \<open>The loop over the modules of the matched entry.\<close>

fun loadModules ::
  "('m, 'w) loader \<Rightarrow> ('m, 'w) Runner \<Rightarrow> Deployment \<Rightarrow> module_ref list
     \<Rightarrow> ('m, 'w) Executor \<Rightarrow> (error + unit) \<times> ('m, 'w) Executor" where
  "loadModules req runner deployment [] s = (Inr (), s)"
| "loadModules req runner deployment (module # rest) s =
     (case loadEach req runner deployment module (toLoad deployment module) s of
        (Inl e, s1) \<Rightarrow> (Inl e, s1)
      | (Inr u, s1) \<Rightarrow> loadModules req runner deployment rest s1)"

text \<open>
  What \<open>run\<close> does with the entry it has found: the runner of the entry's type is
  fetched (\<^verbatim>\<open>assert(runner)\<close>) and the runner cache cleared at once; then the loads, then
  the run hook; then the path cache is cleared.
\<close>

definition runDeployment ::
  "('m, 'w) loader \<Rightarrow> Deployment \<Rightarrow> ('m, 'w) Executor \<Rightarrow> (error + unit) \<times> ('m, 'w) Executor" where
  "runDeployment req deployment s =
     (case runnerCache s (d_type deployment) of
        None \<Rightarrow> (Inl (AssertionError None), s)
      | Some runner \<Rightarrow>
          (case loadModules req runner deployment (d_modules deployment)
                  (s\<lparr>runnerCache := Map.empty\<rparr>) of
             (Inl e, s1) \<Rightarrow> (Inl e, s1)
           | (Inr u, s1) \<Rightarrow>
               (let s2 = s1\<lparr>calls := calls s1 @ [RunHook]\<rparr>
                in case r_run runner (world s2) of
                     Inl x \<Rightarrow> (Inl (Thrown x), s2)
                   | Inr w \<Rightarrow> (Inr (), s2\<lparr>world := w, modulePathCache := Map.empty\<rparr>))))"

text \<open>
  The loop of \<open>run\<close> over the entries: the first entry with the name is run and \<open>run\<close>
  returns. When no entry has the name the loop ends and \<open>run\<close> returns normally.
\<close>

fun runNamed ::
  "('m, 'w) loader \<Rightarrow> string \<Rightarrow> Deployment list
     \<Rightarrow> ('m, 'w) Executor \<Rightarrow> (error + unit) \<times> ('m, 'w) Executor" where
  "runNamed req name [] s = (Inr (), s)"
| "runNamed req name (deployment # rest) s =
     (if d_name deployment = name then runDeployment req deployment s
      else runNamed req name rest s)"

text \<open>
  The second parameter of \<^verbatim>\<open>run(name: string, verify: boolean)\<close> has no default in the
  source: a caller that leaves it out passes \<open>undefined\<close>, here \<open>None\<close>, and
  \<^verbatim>\<open>if (verify)\<close> is false for it.
\<close>

fun truthy :: "bool option \<Rightarrow> bool" where
  "truthy None = False"
| "truthy (Some b) = b"

text \<open>
  \<open>run\<close>: verification when asked for, \<^verbatim>\<open>assert(this.config)\<close>, the declaration cache
  cleared, then the loop over the entries. The result is the outcome of the returned
  promise together with the state in which it settles.
\<close>

definition run ::
  "('m, 'w) loader \<Rightarrow> string \<Rightarrow> bool option
     \<Rightarrow> ('m, 'w) Executor \<Rightarrow> (error + unit) \<times> ('m, 'w) Executor" where
  "run req name verify s =
     (case (if truthy verify then verifyDependencies s else Inr ()) of
        Inl e \<Rightarrow> (Inl e, s)
      | Inr u \<Rightarrow>
          (case config s of
             None \<Rightarrow> (Inl (AssertionError None), s)
           | Some cfg \<Rightarrow> runNamed req name (dc_deployment cfg) (s\<lparr>configCache := Map.empty\<rparr>)))"

section \<open>Notions of the specification\<close>

text \<open>
  The set aggregated for a module name, read off the map of pass one: empty when the name
  has no entry (the \<^verbatim>\<open>cached &&\<close> of the source).
\<close>

definition available :: "(string \<rightharpoonup> string set) \<Rightarrow> string \<Rightarrow> string set" where
  "available loadedCommands n = (case loadedCommands n of None \<Rightarrow> {} | Some c \<Rightarrow> c)"

text \<open>
  The specification's aggregate, in its own words: the union, over all entries of the
  manifest and all their module references with the given name, of the commands the
  reference contributes.
\<close>

definition contributed :: "Deployment list \<Rightarrow> string \<Rightarrow> string set" where
  "contributed ds n =
     (\<Union>d \<in> set ds. \<Union>m \<in> set (d_modules d).
        if moduleName m = n then set (getLoadedCommand d m) else {})"

text \<open>The module names listed by some entry of the manifest.\<close>

definition listed :: "Deployment list \<Rightarrow> string set" where
  "listed ds = (\<Union>d \<in> set ds. moduleName ` set (d_modules d))"

text \<open>The dependency declarations of a module, none when the field is absent.\<close>

definition dependenciesOf :: "ModuleConfig \<Rightarrow> Dependency list" where
  "dependenciesOf c = (case mc_dependencies c of None \<Rightarrow> [] | Some deps \<Rightarrow> deps)"

text \<open>Every module listed by some entry has a declaration in the declaration cache.\<close>

definition allDeclared :: "(string \<rightharpoonup> ModuleConfig) \<Rightarrow> Deployment list \<Rightarrow> bool" where
  "allDeclared declarations ds =
     (\<forall>d \<in> set ds. \<forall>m \<in> set (d_modules d). declarations (moduleName m) \<noteq> None)"

text \<open>
  The specification's condition for verification to succeed: for every dependency
  declaration \<open>{name: X, of: C}\<close> of every declared module listed in any entry, every
  command of \<open>C\<close> (as a sequence) is contributed for \<open>X\<close> by some entry of the manifest.
\<close>

definition dependenciesSatisfied ::
  "(string \<rightharpoonup> ModuleConfig) \<Rightarrow> Deployment list \<Rightarrow> bool" where
  "dependenciesSatisfied declarations ds =
     (\<forall>d \<in> set ds. \<forall>m \<in> set (d_modules d).
        case declarations (moduleName m) of
          None \<Rightarrow> True
        | Some mc \<Rightarrow>
            (\<forall>dep \<in> set (dependenciesOf mc). \<forall>c \<in> set (toArray (dep_of dep)).
               c \<in> contributed ds (dep_name dep)))"


text \<open>
  The (module, command) pairs of an entry, in manifest module order and, within a module,
  in command order.
\<close>

definition loadPlan :: "Deployment \<Rightarrow> (module_ref \<times> string) list" where
  "loadPlan d = concat (map (\<lambda>m. map (Pair m) (toLoad d m)) (d_modules d))"

text \<open>
  An entry rewritten so that every \<open>of\<close> in scalar form \<^verbatim>\<open>of: "Query"\<close> is in the singleton
  sequence form \<^verbatim>\<open>of: ["Query"]\<close>.
\<close>

fun sequenceForm :: "of_value \<Rightarrow> of_value" where
  "sequenceForm (Scalar c) = Sequence [c]"
| "sequenceForm (Sequence cs) = Sequence cs"

fun sequenceFormRef :: "module_ref \<Rightarrow> module_ref" where
  "sequenceFormRef (Bare n) = Bare n"
| "sequenceFormRef (Override lm) = Override (lm\<lparr>lm_of := sequenceForm (lm_of lm)\<rparr>)"

definition sequenceFormEntry :: "Deployment \<Rightarrow> Deployment" where
  "sequenceFormEntry d =
     d\<lparr>d_of := sequenceForm (d_of d), d_modules := map sequenceFormRef (d_modules d)\<rparr>"

section \<open>Example manifests, registries and runners\<close>




text \<open>
  The specification's end-to-end scenario: \<open>Account\<close> declares no dependency, \<open>Member\<close>
  depends on \<open>Account\<close>'s \<open>Query\<close>.
\<close>

definition accountConfig :: ModuleConfig where
  "accountConfig = \<lparr> mc_version = 1, mc_dependencies = None, mc_name = ''Account'' \<rparr>"

definition memberConfig :: ModuleConfig where
  "memberConfig =
     \<lparr> mc_version = 1,
       mc_dependencies = Some [\<lparr> dep_name = ''Account'', dep_of = Scalar ''Query'' \<rparr>],
       mc_name = ''Member'' \<rparr>"

definition registry :: "string \<rightharpoonup> ModuleConfig" where
  "registry = [''Account'' \<mapsto> accountConfig, ''Member'' \<mapsto> memberConfig]"

definition modulePaths :: "string \<rightharpoonup> string" where
  "modulePaths = [''Account'' \<mapsto> ''modules/account'', ''Member'' \<mapsto> ''modules/member'']"

text \<open>One entry that loads \<open>Account\<close> with \<open>Query\<close> and \<open>Member\<close> with \<open>Mutation\<close>.\<close>

definition entryOk :: Deployment where
  "entryOk =
     \<lparr> d_type = ''GraphQL'', d_name = ''BE'', d_of = Scalar ''Mutation'', d_description = None,
       d_modules = [Override \<lparr> lm_name = ''Account'', lm_of = Scalar ''Query'' \<rparr>, Bare ''Member''],
       d_template = None, d_load = None \<rparr>"

text \<open>The same entry with nothing loading \<open>Account\<close>'s \<open>Query\<close>.\<close>

definition entryBad :: Deployment where
  "entryBad =
     \<lparr> d_type = ''GraphQL'', d_name = ''BE'', d_of = Scalar ''Mutation'', d_description = None,
       d_modules = [Bare ''Account'', Bare ''Member''],
       d_template = None, d_load = None \<rparr>"

text \<open>An entry that lists \<open>Ghost\<close>, a module no directory declares.\<close>

definition entryGhost :: Deployment where
  "entryGhost =
     \<lparr> d_type = ''GraphQL'', d_name = ''BE'', d_of = Scalar ''Query'', d_description = None,
       d_modules = [Bare ''Account'', Bare ''Ghost''], d_template = None, d_load = None \<rparr>"

text \<open>
  A runner whose load hook counts its calls in the world, one whose run hook throws, and a
  loader that returns the pair of root and command as the artifact.
\<close>

definition countingRunner :: "string \<Rightarrow> (string \<times> string, nat) Runner" where
  "countingRunner t = \<lparr> r_type = t, onLoad = (\<lambda>m d w. Inr (Suc w)), r_run = (\<lambda>w. Inr w) \<rparr>"

definition failingRunner :: "string \<Rightarrow> (string \<times> string, nat) Runner" where
  "failingRunner t =
     \<lparr> r_type = t, onLoad = (\<lambda>m d w. Inr (Suc w)), r_run = (\<lambda>w. Inl ''listen failed'') \<rparr>"

definition fileLoader :: "(string \<times> string, nat) loader" where
  "fileLoader root command w = Inr ((root, command), w)"

text \<open>An executor as the constructor and one \<open>addRunner\<close> leave it.\<close>

definition executor ::
  "Deployment list \<Rightarrow> (string \<times> string, nat) Runner \<Rightarrow> (string \<times> string, nat) Executor" where
  "executor ds r =
     addRunner r
       \<lparr> config = Some \<lparr> dc_version = 1, dc_templates = None, dc_deployment = ds \<rparr>,
         configCache = registry, runnerCache = Map.empty, modulePathCache = modulePaths,
         world = 0, calls = [] \<rparr>"

text \<open>
  A modules directory without subdirectories and a manifest whose only entry lists no
  module.
\<close>

definition emptyEntry :: Deployment where
  "emptyEntry =
     \<lparr> d_type = ''Rest'', d_name = ''Idle'', d_of = Scalar ''Endpoint'', d_description = None,
       d_modules = [], d_template = None, d_load = None \<rparr>"

definition emptyExecutor :: "(string \<times> string, nat) Executor" where
  "emptyExecutor =
     \<lparr> config = Some \<lparr> dc_version = 1, dc_templates = None, dc_deployment = [emptyEntry] \<rparr>,
       configCache = Map.empty, runnerCache = Map.empty, modulePathCache = Map.empty,
       world = 0, calls = [] \<rparr>"

section \<open>Evaluating the examples\<close>

lemmas ex_defs = accountConfig_def memberConfig_def registry_def modulePaths_def entryOk_def
  entryBad_def countingRunner_def failingRunner_def fileLoader_def executor_def addRunner_def

lemmas run_defs = run_def runDeployment_def verifyDependencies_def aggregate_def addLoaded_def
  toLowerCase_def lowerChar_def

section \<open>Template expansion\<close>



section \<open>Aggregation in closed form\<close>

text \<open>
  The two nested loops of pass one compute, for every listed module name, the union of
  the contributed commands; the lemmas follow the loops from the inside out.
\<close>

lemma addLoaded_apply:
  "addLoaded d m lc n =
     (if n = moduleName m then Some (available lc n \<union> set (getLoadedCommand d m)) else lc n)"
  by (simp add: addLoaded_def available_def Let_def)

lemma available_addLoaded:
  "available (addLoaded d m lc) n =
     available lc n \<union> (if moduleName m = n then set (getLoadedCommand d m) else {})"
  by (auto simp: available_def addLoaded_apply)

lemma fold_addLoaded:
  "fold (addLoaded d) ms lc n =
     (if n \<in> moduleName ` set ms
      then Some (available lc n \<union>
                 (\<Union>m \<in> set ms. if moduleName m = n then set (getLoadedCommand d m) else {}))
      else lc n)"
proof (induction ms arbitrary: lc)
  case Nil
  show ?case by simp
next
  case (Cons m ms)
  have "fold (addLoaded d) (m # ms) lc n = fold (addLoaded d) ms (addLoaded d m lc) n"
    by simp
  also have "\<dots> = (if n \<in> moduleName ` set ms
      then Some (available (addLoaded d m lc) n \<union>
                 (\<Union>m \<in> set ms. if moduleName m = n then set (getLoadedCommand d m) else {}))
      else addLoaded d m lc n)"
    by (rule Cons.IH)
  finally have e: "fold (addLoaded d) (m # ms) lc n =
      (if n \<in> moduleName ` set ms
       then Some (available (addLoaded d m lc) n \<union>
                 (\<Union>m \<in> set ms. if moduleName m = n then set (getLoadedCommand d m) else {}))
       else addLoaded d m lc n)" .
  show ?case
    unfolding e by (auto simp: available_addLoaded addLoaded_apply image_iff)
qed

lemma contributed_unlisted: "n \<notin> listed ds \<Longrightarrow> contributed ds n = {}"
  by (auto simp: listed_def contributed_def)

lemma available_fold_addLoaded:
  "available (fold (addLoaded d) ms lc) n =
     available lc n \<union> (\<Union>m \<in> set ms. if moduleName m = n then set (getLoadedCommand d m) else {})"
  by (auto simp: available_def fold_addLoaded split: if_splits)

lemma fold_entries:
  "fold (\<lambda>d. fold (addLoaded d) (d_modules d)) ds lc n =
     (if n \<in> listed ds then Some (available lc n \<union> contributed ds n) else lc n)"
proof (induction ds arbitrary: lc)
  case Nil
  show ?case by (simp add: listed_def contributed_def)
next
  case (Cons d ds)
  let ?lc = "fold (addLoaded d) (d_modules d) lc"
  have l: "listed (d # ds) = moduleName ` set (d_modules d) \<union> listed ds"
    by (simp add: listed_def)
  have c: "contributed (d # ds) n =
      (\<Union>m \<in> set (d_modules d). if moduleName m = n then set (getLoadedCommand d m) else {})
        \<union> contributed ds n"
    by (simp add: contributed_def)
  have step: "fold (\<lambda>d. fold (addLoaded d) (d_modules d)) (d # ds) lc n =
        (if n \<in> listed ds then Some (available ?lc n \<union> contributed ds n) else ?lc n)"
    using Cons.IH [of ?lc] by simp
  have a: "available ?lc n = available lc n \<union>
      (\<Union>m \<in> set (d_modules d). if moduleName m = n then set (getLoadedCommand d m) else {})"
    by (rule available_fold_addLoaded)
  have b: "?lc n = (if n \<in> moduleName ` set (d_modules d)
      then Some (available lc n \<union>
                 (\<Union>m \<in> set (d_modules d). if moduleName m = n then set (getLoadedCommand d m) else {}))
      else lc n)"
    by (rule fold_addLoaded)
  show ?case
    unfolding step a b l c using contributed_unlisted [of n ds] by auto
qed

lemma aggregate_eq:
  "aggregate ds n = (if n \<in> listed ds then Some (contributed ds n) else None)"
  by (simp add: aggregate_def fold_entries available_def)

lemma available_aggregate: "available (aggregate ds) n = contributed ds n"
  by (auto simp: aggregate_eq available_def contributed_def listed_def)

section \<open>Pass two: when it succeeds and how it fails\<close>

lemma checkCommands_ok:
  "checkCommands cached n cs = Inr () \<longleftrightarrow>
     (\<forall>c \<in> set cs. c \<in> (case cached of None \<Rightarrow> {} | Some s \<Rightarrow> s))"
  by (induction cs) (auto split: option.splits)

lemma checkDependencies_ok:
  "checkDependencies lc deps = Inr () \<longleftrightarrow>
     (\<forall>dep \<in> set deps. \<forall>c \<in> set (toArray (dep_of dep)). c \<in> available lc (dep_name dep))"
proof (induction deps)
  case Nil
  show ?case by simp
next
  case (Cons dep deps)
  have "checkCommands (lc (dep_name dep)) (dep_name dep) (toArray (dep_of dep)) = Inr () \<longleftrightarrow>
        (\<forall>c \<in> set (toArray (dep_of dep)). c \<in> available lc (dep_name dep))"
    by (simp add: checkCommands_ok available_def)
  then show ?case using Cons.IH
    by (auto split: sum.splits)
qed

lemma checkModules_ok:
  "(\<forall>m \<in> set ms. cc (moduleName m) \<noteq> None) \<Longrightarrow>
   checkModules cc lc ms = Inr () \<longleftrightarrow>
     (\<forall>m \<in> set ms. \<forall>mc. cc (moduleName m) = Some mc \<longrightarrow>
        (\<forall>dep \<in> set (dependenciesOf mc). \<forall>c \<in> set (toArray (dep_of dep)).
           c \<in> available lc (dep_name dep)))"
proof (induction ms)
  case Nil
  show ?case by simp
next
  case (Cons m ms)
  then obtain mc where mc: "cc (moduleName m) = Some mc" by auto
  have step: "checkModules cc lc (m # ms) = Inr () \<longleftrightarrow>
      checkDependencies lc (dependenciesOf mc) = Inr () \<and> checkModules cc lc ms = Inr ()"
    using mc by (auto simp: dependenciesOf_def split: option.splits list.splits sum.splits)
  show ?case using Cons mc
    by (simp add: step checkDependencies_ok del: checkModules.simps)
qed

lemma checkDeployments_ok:
  "(\<forall>d \<in> set ds. \<forall>m \<in> set (d_modules d). cc (moduleName m) \<noteq> None) \<Longrightarrow>
   checkDeployments cc lc ds = Inr () \<longleftrightarrow>
     (\<forall>d \<in> set ds. \<forall>m \<in> set (d_modules d). \<forall>mc. cc (moduleName m) = Some mc \<longrightarrow>
        (\<forall>dep \<in> set (dependenciesOf mc). \<forall>c \<in> set (toArray (dep_of dep)).
           c \<in> available lc (dep_name dep)))"
proof (induction ds)
  case Nil
  show ?case by simp
next
  case (Cons d ds)
  have "checkDeployments cc lc (d # ds) = Inr () \<longleftrightarrow>
      checkModules cc lc (d_modules d) = Inr () \<and> checkDeployments cc lc ds = Inr ()"
    by (auto split: sum.splits)
  then show ?case using Cons
    by (simp add: checkModules_ok del: checkDeployments.simps)
qed





section \<open>The loops of \<open>run\<close>\<close>

text \<open>The loading loops touch the world and the history only.\<close>

lemma loadEach_frame:
  "loadEach req r d m cs s = (res, s') \<Longrightarrow>
     config s' = config s \<and> configCache s' = configCache s \<and>
     runnerCache s' = runnerCache s \<and> modulePathCache s' = modulePathCache s"
proof (induction cs arbitrary: s)
  case Nil
  then show ?case by simp
next
  case (Cons c cs)
  show ?case
    using Cons.prems
    by (auto simp: Let_def split: option.splits if_splits sum.splits prod.splits
             dest!: Cons.IH)
qed

lemma loadModules_frame:
  "loadModules req r d ms s = (res, s') \<Longrightarrow>
     config s' = config s \<and> configCache s' = configCache s \<and>
     runnerCache s' = runnerCache s \<and> modulePathCache s' = modulePathCache s"
proof (induction ms arbitrary: s)
  case Nil
  then show ?case by simp
next
  case (Cons m ms)
  show ?case
    using Cons.prems
    by (auto split: sum.splits prod.splits dest!: Cons.IH loadEach_frame)
qed



text \<open>The loop over the entries runs the first entry with the name, if there is one.\<close>

lemma runNamed_find:
  "runNamed req name ds s =
     (case find (\<lambda>d. d_name d = name) ds of
        None \<Rightarrow> (Inr (), s)
      | Some d \<Rightarrow> runDeployment req d s)"
  by (induction ds) auto

lemma runDeployment_caches:
  assumes "runDeployment req d s = (res, s')"
  shows "config s' = config s \<and> configCache s' = configCache s \<and>
     (case runnerCache s (d_type d) of
        None \<Rightarrow> res = Inl (AssertionError None) \<and> runnerCache s' = runnerCache s
                  \<and> modulePathCache s' = modulePathCache s
      | Some r \<Rightarrow> runnerCache s' = Map.empty
                  \<and> modulePathCache s' = (if res = Inr () then Map.empty else modulePathCache s))"
proof (cases "runnerCache s (d_type d)")
  case None
  with assms show ?thesis by (simp add: runDeployment_def)
next
  case (Some r)
  obtain r1 s1 where lm: "loadModules req r d (d_modules d) (s\<lparr>runnerCache := Map.empty\<rparr>) = (r1, s1)"
    by (cases "loadModules req r d (d_modules d) (s\<lparr>runnerCache := Map.empty\<rparr>)")
  from loadModules_frame [OF lm] have fr:
    "config s1 = config s" "configCache s1 = configCache s"
    "runnerCache s1 = Map.empty" "modulePathCache s1 = modulePathCache s"
    by simp_all
  show ?thesis
    using assms Some lm fr
    by (auto simp: runDeployment_def Let_def split: sum.splits)
qed

section \<open>Scalar and sequence form\<close>

lemma toArray_sequenceForm: "toArray (sequenceForm v) = toArray v"
  by (cases v) simp_all

lemma moduleName_sequenceFormRef: "moduleName (sequenceFormRef m) = moduleName m"
  by (cases m) simp_all

lemma getLoadedCommand_sequenceForm:
  "getLoadedCommand (sequenceFormEntry d) (sequenceFormRef m) = getLoadedCommand d m"
  by (cases m) (simp_all add: sequenceFormEntry_def toArray_sequenceForm)

lemma toLoad_sequenceForm:
  "toLoad (sequenceFormEntry d) (sequenceFormRef m) = toLoad d m"
  by (cases m) (simp_all add: sequenceFormEntry_def toArray_sequenceForm)

lemma listed_sequenceForm: "listed (map sequenceFormEntry ds) = listed ds"
  by (simp add: listed_def sequenceFormEntry_def image_image moduleName_sequenceFormRef)

lemma contributed_sequenceForm: "contributed (map sequenceFormEntry ds) n = contributed ds n"
proof -
  have "\<And>d. (\<Union>m \<in> set (d_modules (sequenceFormEntry d)).
            if moduleName m = n then set (getLoadedCommand (sequenceFormEntry d) m) else {})
        = (\<Union>m \<in> set (d_modules d). if moduleName m = n then set (getLoadedCommand d m) else {})"
  proof -
    fix d
    have "d_modules (sequenceFormEntry d) = map sequenceFormRef (d_modules d)"
      by (simp add: sequenceFormEntry_def)
    then show "(\<Union>m \<in> set (d_modules (sequenceFormEntry d)).
            if moduleName m = n then set (getLoadedCommand (sequenceFormEntry d) m) else {})
        = (\<Union>m \<in> set (d_modules d). if moduleName m = n then set (getLoadedCommand d m) else {})"
      by (simp only: set_map UN_simps(10))
         (simp add: moduleName_sequenceFormRef getLoadedCommand_sequenceForm)
  qed
  then show ?thesis by (simp add: contributed_def)
qed

section \<open>The claims\<close>

subsection \<open>C1: template expansion\<close>




subsection \<open>C2: when verification succeeds\<close>

text \<open>
  C2, as stated, fails on an empty declaration cache: with no module deployed every
  deployed module has a declaration and every dependency is satisfied, yet verification
  fails on its guard \<^verbatim>\<open>assert(this.configCache.size, ...)\<close>.
\<close>

theorem empty_registry_counterexample:
  "allDeclared (configCache emptyExecutor) [emptyEntry]
   \<and> dependenciesSatisfied (configCache emptyExecutor) [emptyEntry]
   \<and> config emptyExecutor =
       Some \<lparr> dc_version = 1, dc_templates = None, dc_deployment = [emptyEntry] \<rparr>
   \<and> verifyDependencies emptyExecutor =
        Inl (AssertionError (Some ''Expected that config cache has already been loaded.''))"
  by (simp add: emptyEntry_def emptyExecutor_def verifyDependencies_def allDeclared_def
        dependenciesSatisfied_def)

text \<open>
  C2, amended: for every manifest and every non-empty declaration cache in which every
  deployed module has a declaration, verification succeeds if and only if, for every
  dependency declaration \<open>{name: X, of: C}\<close> of every module listed in any entry, every
  command of the normalised sequence \<open>C\<close> is in the set contributed for \<open>X\<close> by the entries
  of the whole manifest.
\<close>

theorem verification_iff_dependencies_aggregated:
  assumes "config s = Some cfg" and "configCache s \<noteq> Map.empty"
      and "allDeclared (configCache s) (dc_deployment cfg)"
  shows "verifyDependencies s = Inr () \<longleftrightarrow>
           dependenciesSatisfied (configCache s) (dc_deployment cfg)"
proof -
  from assms(3) have d: "\<forall>d \<in> set (dc_deployment cfg). \<forall>m \<in> set (d_modules d).
      configCache s (moduleName m) \<noteq> None"
    by (simp add: allDeclared_def)
  have "dependenciesSatisfied (configCache s) (dc_deployment cfg) \<longleftrightarrow>
     (\<forall>d \<in> set (dc_deployment cfg). \<forall>m \<in> set (d_modules d). \<forall>mc.
        configCache s (moduleName m) = Some mc \<longrightarrow>
          (\<forall>dep \<in> set (dependenciesOf mc). \<forall>c \<in> set (toArray (dep_of dep)).
             c \<in> contributed (dc_deployment cfg) (dep_name dep)))"
    unfolding dependenciesSatisfied_def
    by (intro ball_cong refl) (simp split: option.splits)
  then show ?thesis
    using assms(1,2) checkDeployments_ok [OF d, of "aggregate (dc_deployment cfg)"]
    by (simp add: verifyDependencies_def available_aggregate)
qed

theorem verification_iff_dependencies_aggregated_witness:
  "configCache (executor [entryOk] (countingRunner ''GraphQL'')) = registry
   \<and> registry ''Member'' = Some memberConfig
   \<and> allDeclared registry [entryOk]
   \<and> verifyDependencies (executor [entryOk] (countingRunner ''GraphQL'')) = Inr ()
   \<and> dependenciesSatisfied registry [entryOk]
   \<and> allDeclared registry [entryBad]
   \<and> verifyDependencies (executor [entryBad] (countingRunner ''GraphQL'')) \<noteq> Inr ()
   \<and> \<not> dependenciesSatisfied registry [entryBad]"
proof -
  let ?s = "executor [entryOk] (countingRunner ''GraphQL'')"
  let ?cfg = "\<lparr> dc_version = 1, dc_templates = None, dc_deployment = [entryOk] \<rparr>"
  let ?t = "executor [entryBad] (countingRunner ''GraphQL'')"
  let ?cfgt = "\<lparr> dc_version = 1, dc_templates = None, dc_deployment = [entryBad] \<rparr>"
  have s1: "config ?s = Some ?cfg" by (simp add: ex_defs)
  have s2: "configCache ?s \<noteq> Map.empty" by (simp add: ex_defs)
  have s3: "allDeclared (configCache ?s) (dc_deployment ?cfg)"
    by (simp add: allDeclared_def ex_defs)
  have sv: "verifyDependencies ?s = Inr ()" by (simp add: run_defs ex_defs)
  have sc: "configCache ?s = registry" by (simp add: ex_defs)
  have t1: "config ?t = Some ?cfgt" by (simp add: ex_defs)
  have t2: "configCache ?t \<noteq> Map.empty" by (simp add: ex_defs)
  have t3: "allDeclared (configCache ?t) (dc_deployment ?cfgt)"
    by (simp add: allDeclared_def ex_defs)
  have tv: "verifyDependencies ?t \<noteq> Inr ()" by (simp add: run_defs ex_defs)
  have tc: "configCache ?t = registry" by (simp add: ex_defs)
  have m: "registry ''Member'' = Some memberConfig" by (simp add: ex_defs)
  have ok: "dependenciesSatisfied registry [entryOk]"
    using verification_iff_dependencies_aggregated [OF s1 s2 s3] sv sc by simp
  have bad: "\<not> dependenciesSatisfied registry [entryBad]"
    using verification_iff_dependencies_aggregated [OF t1 t2 t3] tv tc by simp
  from s3 t3 sc tc have "allDeclared registry [entryOk]" and "allDeclared registry [entryBad]"
    by simp_all
  with sc m sv ok tv bad show ?thesis by blast
qed

subsection \<open>C3: when the caches are cleared\<close>

text \<open>
  C3, as stated, fails: a run whose run hook throws has already cleared the declaration
  cache and the runner registry.
\<close>

theorem failed_run_hook_counterexample:
  "fst (run fileLoader ''BE'' (Some True) (executor [entryOk] (failingRunner ''GraphQL''))) =
      Inl (Thrown ''listen failed'')
   \<and> configCache (executor [entryOk] (failingRunner ''GraphQL'')) ''Account'' = Some accountConfig
   \<and> configCache (snd (run fileLoader ''BE'' (Some True) (executor [entryOk] (failingRunner ''GraphQL''))))
        ''Account'' = None
   \<and> runnerCache (executor [entryOk] (failingRunner ''GraphQL'')) ''GraphQL'' = Some (failingRunner ''GraphQL'')
   \<and> runnerCache (snd (run fileLoader ''BE'' (Some True) (executor [entryOk] (failingRunner ''GraphQL''))))
        ''GraphQL'' = None"
  by (simp add: run_defs ex_defs)

text \<open>
  C3, amended: a failed verification leaves the whole state unchanged. Otherwise the
  declaration cache is cleared before the entry is looked up; the runner registry is
  cleared once the matched entry's runner has been fetched, before any load; the path
  cache is cleared only when the run hook has completed. So when no entry matches, or the
  matched entry's runner is missing, only the declaration cache is cleared; after a failed
  load or run hook the declaration cache and the runner registry are cleared and the path
  cache is as before; after a successful run of a matched entry all three are empty.
\<close>

theorem run_cache_clearing:
  assumes "run req name verify s = (res, s')" and "config s = Some cfg"
  shows "config s' = config s
     \<and> (truthy verify \<and> verifyDependencies s \<noteq> Inr () \<longrightarrow>
          res = verifyDependencies s \<and> s' = s)
     \<and> (\<not> (truthy verify \<and> verifyDependencies s \<noteq> Inr ()) \<longrightarrow>
          configCache s' = Map.empty
          \<and> (case find (\<lambda>d. d_name d = name) (dc_deployment cfg) of
               None \<Rightarrow> res = Inr () \<and> runnerCache s' = runnerCache s
                         \<and> modulePathCache s' = modulePathCache s
             | Some d \<Rightarrow>
                 (case runnerCache s (d_type d) of
                    None \<Rightarrow> res = Inl (AssertionError None) \<and> runnerCache s' = runnerCache s
                              \<and> modulePathCache s' = modulePathCache s
                  | Some r \<Rightarrow> runnerCache s' = Map.empty
                              \<and> modulePathCache s' =
                                  (if res = Inr () then Map.empty else modulePathCache s))))"
proof (cases "truthy verify \<and> verifyDependencies s \<noteq> Inr ()")
  case True
  then obtain e where "verifyDependencies s = Inl e"
    by (cases "verifyDependencies s") auto
  with True assms show ?thesis by (auto simp: run_def)
next
  case False
  let ?s0 = "s\<lparr>configCache := Map.empty\<rparr>"
  from False have "(if truthy verify then verifyDependencies s else Inr ()) = Inr ()"
    by auto
  with assms have rn: "runNamed req name (dc_deployment cfg) ?s0 = (res, s')"
    by (simp add: run_def)
  show ?thesis
  proof (cases "find (\<lambda>d. d_name d = name) (dc_deployment cfg)")
    case None
    with rn False show ?thesis by (auto simp: runNamed_find)
  next
    case (Some d)
    with rn have "runDeployment req d ?s0 = (res, s')" by (simp add: runNamed_find)
    from runDeployment_caches [OF this] Some False show ?thesis
      by (auto split: option.splits)
  qed
qed

theorem run_cache_clearing_witness:
  "fst (run fileLoader ''BE'' (Some True) (executor [entryOk] (countingRunner ''GraphQL''))) = Inr ()
   \<and> configCache (snd (run fileLoader ''BE'' (Some True) (executor [entryOk] (countingRunner ''GraphQL'')))) = Map.empty
   \<and> runnerCache (snd (run fileLoader ''BE'' (Some True) (executor [entryOk] (countingRunner ''GraphQL'')))) = Map.empty
   \<and> modulePathCache (snd (run fileLoader ''BE'' (Some True) (executor [entryOk] (countingRunner ''GraphQL'')))) = Map.empty"
proof -
  let ?s = "executor [entryOk] (countingRunner ''GraphQL'')"
  let ?cfg = "\<lparr> dc_version = 1, dc_templates = None, dc_deployment = [entryOk] \<rparr>"
  obtain s' where s': "s' = snd (run fileLoader ''BE'' (Some True) ?s)" by simp
  have f: "fst (run fileLoader ''BE'' (Some True) ?s) = Inr ()"
    by (simp add: run_defs ex_defs)
  have h1: "run fileLoader ''BE'' (Some True) ?s = (Inr (), s')"
    using f s' by (simp add: prod_eq_iff)
  have h2: "config ?s = Some ?cfg" by (simp add: ex_defs)
  have v: "verifyDependencies ?s = Inr ()" by (simp add: run_defs ex_defs)
  have fd: "find (\<lambda>d. d_name d = ''BE'') (dc_deployment ?cfg) = Some entryOk"
    by (simp add: entryOk_def)
  have rc: "runnerCache ?s (d_type entryOk) = Some (countingRunner ''GraphQL'')"
    by (simp add: ex_defs)
  from run_cache_clearing [OF h1 h2] v fd rc f s' show ?thesis by simp
qed

subsection \<open>C4: a name without entry, a type without runner\<close>

text \<open>
  C4, as stated, fails: \<open>run\<close> with a name that no entry has returns normally.
\<close>

theorem unmatched_name_returns_counterexample:
  "''Nope'' \<notin> set (map d_name [entryOk])
   \<and> run fileLoader ''Nope'' (Some True) (executor [entryOk] (countingRunner ''GraphQL'')) =
       (Inr (), (executor [entryOk] (countingRunner ''GraphQL''))\<lparr>configCache := Map.empty\<rparr>)"
  by (simp add: run_defs ex_defs)

text \<open>
  C4, amended: when verification is skipped or passes, \<open>run\<close> with a name that matches no
  entry returns normally, having cleared the declaration cache and called no hook; and
  when the first entry with the name has a type for which no runner is registered, \<open>run\<close>
  fails on \<^verbatim>\<open>assert(runner)\<close>, again without calling a hook.
\<close>

theorem run_unmatched_or_unregistered:
  assumes "config s = Some cfg" and "truthy verify \<longrightarrow> verifyDependencies s = Inr ()"
  shows "(find (\<lambda>d. d_name d = name) (dc_deployment cfg) = None \<longrightarrow>
            run req name verify s = (Inr (), s\<lparr>configCache := Map.empty\<rparr>))
       \<and> (\<forall>d. find (\<lambda>d. d_name d = name) (dc_deployment cfg) = Some d
                \<and> runnerCache s (d_type d) = None \<longrightarrow>
            run req name verify s = (Inl (AssertionError None), s\<lparr>configCache := Map.empty\<rparr>))"
proof -
  from assms(2) have "(if truthy verify then verifyDependencies s else Inr ()) = Inr ()"
    by auto
  with assms(1) have
    "run req name verify s = runNamed req name (dc_deployment cfg) (s\<lparr>configCache := Map.empty\<rparr>)"
    by (simp add: run_def)
  then show ?thesis
    by (auto simp: runNamed_find runDeployment_def)
qed

theorem run_unmatched_or_unregistered_witness:
  "run fileLoader ''Nope'' (Some True) (executor [entryOk] (countingRunner ''GraphQL'')) =
       (Inr (), (executor [entryOk] (countingRunner ''GraphQL''))\<lparr>configCache := Map.empty\<rparr>)
   \<and> run fileLoader ''BE'' (Some True) (executor [entryOk] (countingRunner ''Rest'')) =
       (Inl (AssertionError None), (executor [entryOk] (countingRunner ''Rest''))\<lparr>configCache := Map.empty\<rparr>)"
proof -
  let ?cfg = "\<lparr> dc_version = 1, dc_templates = None, dc_deployment = [entryOk] \<rparr>"
  let ?s = "executor [entryOk] (countingRunner ''GraphQL'')"
  let ?t = "executor [entryOk] (countingRunner ''Rest'')"
  have s1: "config ?s = Some ?cfg" by (simp add: ex_defs)
  have s2: "truthy (Some True) \<longrightarrow> verifyDependencies ?s = Inr ()" by (simp add: run_defs ex_defs)
  have s3: "find (\<lambda>d. d_name d = ''Nope'') (dc_deployment ?cfg) = None" by (simp add: entryOk_def)
  have t1: "config ?t = Some ?cfg" by (simp add: ex_defs)
  have t2: "truthy (Some True) \<longrightarrow> verifyDependencies ?t = Inr ()" by (simp add: run_defs ex_defs)
  have t3: "find (\<lambda>d. d_name d = ''BE'') (dc_deployment ?cfg) = Some entryOk
            \<and> runnerCache ?t (d_type entryOk) = None"
    by (simp add: ex_defs)
  from run_unmatched_or_unregistered [OF s1 s2, of "''Nope''" fileLoader] s3
       run_unmatched_or_unregistered [OF t1 t2, of "''BE''" fileLoader] t3
  show ?thesis by blast
qed

subsection \<open>C5: the \<open>verify\<close> argument left out\<close>

text \<open>
  C5: with \<open>verify\<close> left out, \<open>run\<close> should verify the dependencies first. On the manifest
  in which nothing loads \<open>Account\<close>'s \<open>Query\<close>, verification fails and \<open>run\<close> with
  \<open>verify = true\<close> fails with it, but \<open>run\<close> without the argument loads both modules and
  calls the run hook.
\<close>

theorem run_without_verify_skips_verification:
  "verifyDependencies (executor [entryBad] (countingRunner ''GraphQL'')) =
     Inl (AssertionError (Some ''Expected module Account command Query to be loaded.''))
   \<and> run fileLoader ''BE'' (Some True) (executor [entryBad] (countingRunner ''GraphQL'')) =
     (Inl (AssertionError (Some ''Expected module Account command Query to be loaded.'')),
      executor [entryBad] (countingRunner ''GraphQL''))
   \<and> run fileLoader ''BE'' None (executor [entryBad] (countingRunner ''GraphQL'')) =
     (Inr (), (executor [entryBad] (countingRunner ''GraphQL''))
        \<lparr> configCache := Map.empty, runnerCache := Map.empty, modulePathCache := Map.empty,
          world := 2,
          calls := [LoadHook ''modules/account'' ''mutation'' entryBad,
                    LoadHook ''modules/member'' ''mutation'' entryBad, RunHook] \<rparr>)"
  by (simp add: run_defs ex_defs)

subsection \<open>C6: what the dependency error names\<close>




subsection \<open>C7: the order of the hook calls\<close>



subsection \<open>C8: aggregation and the order of the entries\<close>

text \<open>
  C8: the map aggregated by pass one is the same for every permutation of the list of
  entries.
\<close>

theorem aggregate_permutation: "mset ds' = mset ds \<Longrightarrow> aggregate ds' = aggregate ds"
proof -
  assume "mset ds' = mset ds"
  then have "set ds' = set ds" by (rule mset_eq_setD)
  then show ?thesis by (intro ext) (simp add: aggregate_eq listed_def contributed_def)
qed

theorem aggregate_permutation_witness:
  "mset [entryOk, entryBad] = mset [entryBad, entryOk]
   \<and> aggregate [entryOk, entryBad] = aggregate [entryBad, entryOk]"
proof -
  have h: "mset [entryOk, entryBad] = mset [entryBad, entryOk]" by (simp add: add.commute)
  from aggregate_permutation [OF h] h show ?thesis by simp
qed

subsection \<open>C9: scalar and singleton sequence\<close>

text \<open>
  C9: \<^verbatim>\<open>of: "Query"\<close> and \<^verbatim>\<open>of: ["Query"]\<close> give the same command list, on an entry and on
  a module reference, in aggregation (\<open>getLoadedCommand\<close>) and in execution (\<open>toLoad\<close>); so
  rewriting a manifest into sequence form changes neither the aggregated map nor the
  (module, command) pairs an entry loads.
\<close>

theorem scalar_of_same_as_singleton:
  "toArray (Scalar c) = toArray (Sequence [c])
   \<and> getLoadedCommand (d\<lparr>d_of := Scalar c\<rparr>) m = getLoadedCommand (d\<lparr>d_of := Sequence [c]\<rparr>) m
   \<and> toLoad (d\<lparr>d_of := Scalar c\<rparr>) m = toLoad (d\<lparr>d_of := Sequence [c]\<rparr>) m
   \<and> getLoadedCommand d (Override (lm\<lparr>lm_of := Scalar c\<rparr>)) =
       getLoadedCommand d (Override (lm\<lparr>lm_of := Sequence [c]\<rparr>))
   \<and> toLoad d (Override (lm\<lparr>lm_of := Scalar c\<rparr>)) = toLoad d (Override (lm\<lparr>lm_of := Sequence [c]\<rparr>))
   \<and> aggregate (map sequenceFormEntry ds) = aggregate ds
   \<and> map (\<lambda>(m, c). (moduleName m, c)) (loadPlan (sequenceFormEntry d)) =
       map (\<lambda>(m, c). (moduleName m, c)) (loadPlan d)"
proof -
  have a: "aggregate (map sequenceFormEntry ds) = aggregate ds"
    by (intro ext) (simp add: aggregate_eq listed_sequenceForm contributed_sequenceForm)
  have p: "map (\<lambda>(m, c). (moduleName m, c)) (loadPlan (sequenceFormEntry d)) =
       map (\<lambda>(m, c). (moduleName m, c)) (loadPlan d)"
  proof -
    have "\<And>ms. map (\<lambda>(m, c). (moduleName m, c))
             (concat (map (\<lambda>m. map (Pair m) (toLoad (sequenceFormEntry d) m)) (map sequenceFormRef ms)))
          = map (\<lambda>(m, c). (moduleName m, c)) (concat (map (\<lambda>m. map (Pair m) (toLoad d m)) ms))"
    proof -
      fix ms show "map (\<lambda>(m, c). (moduleName m, c))
             (concat (map (\<lambda>m. map (Pair m) (toLoad (sequenceFormEntry d) m)) (map sequenceFormRef ms)))
          = map (\<lambda>(m, c). (moduleName m, c)) (concat (map (\<lambda>m. map (Pair m) (toLoad d m)) ms))"
        by (induction ms) (simp_all add: toLoad_sequenceForm moduleName_sequenceFormRef)
    qed
    then show ?thesis by (simp add: loadPlan_def sequenceFormEntry_def)
  qed
  show ?thesis
    using a p by (cases m) simp_all
qed

subsection \<open>C10: a listed module without declaration\<close>

text \<open>
  C10: when some entry of the manifest lists a module whose name has no declaration in
  the declaration cache, verification fails.
\<close>

theorem undeclared_module_fails_verification:
  assumes "config s = Some cfg" and "d \<in> set (dc_deployment cfg)" and "m \<in> set (d_modules d)"
      and "configCache s (moduleName m) = None"
  shows "\<exists>e. verifyDependencies s = Inl e"
proof -
  have mods: "\<And>lc ms. m \<in> set ms \<Longrightarrow> \<exists>e. checkModules (configCache s) lc ms = Inl e"
  proof -
    fix lc ms show "m \<in> set ms \<Longrightarrow> \<exists>e. checkModules (configCache s) lc ms = Inl e"
      using assms(4)
      by (induction ms) (auto split: option.splits list.splits sum.splits)
  qed
  have deps: "\<And>lc ds. d \<in> set ds \<Longrightarrow> \<exists>e. checkDeployments (configCache s) lc ds = Inl e"
  proof -
    fix lc ds show "d \<in> set ds \<Longrightarrow> \<exists>e. checkDeployments (configCache s) lc ds = Inl e"
      using mods [OF assms(3), of lc]
      by (induction ds) (auto split: sum.splits)
  qed
  show ?thesis
    using assms(1) deps [OF assms(2)] by (simp add: verifyDependencies_def)
qed

theorem undeclared_module_fails_verification_witness:
  "registry (moduleName (Bare ''Ghost'')) = None
   \<and> Bare ''Ghost'' \<in> set (d_modules entryGhost)
   \<and> (\<exists>e. verifyDependencies (executor [entryOk, entryGhost] (countingRunner ''GraphQL'')) = Inl e)"
proof -
  let ?s = "executor [entryOk, entryGhost] (countingRunner ''GraphQL'')"
  let ?cfg = "\<lparr> dc_version = 1, dc_templates = None, dc_deployment = [entryOk, entryGhost] \<rparr>"
  have h1: "config ?s = Some ?cfg" by (simp add: ex_defs)
  have h2: "entryGhost \<in> set (dc_deployment ?cfg)" by simp
  have h3: "Bare ''Ghost'' \<in> set (d_modules entryGhost)" by (simp add: entryGhost_def)
  have h4: "configCache ?s (moduleName (Bare ''Ghost'')) = None" by (simp add: ex_defs)
  have r: "registry (moduleName (Bare ''Ghost'')) = None" by (simp add: ex_defs)
  from undeclared_module_fails_verification [OF h1 h2 h3 h4] h3 r show ?thesis by simp
qed

end
